theory Spec2Isabelle
  imports Main
begin

section \<open>Data model\<close>

subsection \<open>JSON values and the JavaScript operations the rules apply to them\<close>

text \<open>
  Manifests and the template are what \<^verbatim>\<open>JSON.parse\<close> returns. An object is the list of
  its own properties in the order \<^verbatim>\<open>Object.entries\<close> enumerates them (the parser keeps
  one entry per key). Numbers are modelled as integers and strings as lists of ASCII
  characters.
\<close>

datatype json =
    JNull
  | JBool bool
  | JNum int
  | JStr string
  | JArr "json list"
  | JObj "(string \<times> json) list"

text \<open>
  \<^verbatim>\<open>a === b\<close> on two values that come from two different parses: primitives are compared
  by value, an array or an object is only identical to itself, and the values compared
  by the rules never are the same reference (one is read from the workspace manifest,
  the other from the template).
\<close>

fun strict_eq :: "json \<Rightarrow> json \<Rightarrow> bool" where
  "strict_eq JNull JNull = True"
| "strict_eq (JBool a) (JBool b) = (a = b)"
| "strict_eq (JNum a) (JNum b) = (a = b)"
| "strict_eq (JStr a) (JStr b) = (a = b)"
| "strict_eq _ _ = False"

text \<open>The scalar JSON values: everything but arrays and objects.\<close>

fun primitive :: "json \<Rightarrow> bool" where
  "primitive (JArr _) = False"
| "primitive (JObj _) = False"
| "primitive _ = True"

text \<open>\<^verbatim>\<open>typeof v === "object" && !Array.isArray(v) && v !== null\<close>.\<close>

fun plain_object :: "json \<Rightarrow> bool" where
  "plain_object (JObj _) = True"
| "plain_object _ = False"

text \<open>The decimal numeral of an array index, as property keys are written.\<close>

fun show_nat :: "nat \<Rightarrow> string" where
  "show_nat n =
     (if n < 10 then [char_of (48 + n)]
      else show_nat (n div 10) @ [char_of (48 + n mod 10)])"

definition index_keys :: "nat \<Rightarrow> string list" where
  "index_keys n = map show_nat [0..<n]"

text \<open>
  \<^verbatim>\<open>Object.entries(v)\<close>: it throws a TypeError on \<^verbatim>\<open>null\<close>, enumerates the indices of
  an array or a string, and finds no own property in a number or a boolean.
\<close>

datatype js_error =
    ConfigNotFound string
  | ReadFailure
  | SyntaxError
  | TypeError

fun object_entries :: "json \<Rightarrow> js_error + (string \<times> json) list" where
  "object_entries JNull = Inl TypeError"
| "object_entries (JObj kvs) = Inr kvs"
| "object_entries (JArr xs) = Inr (zip (index_keys (length xs)) xs)"
| "object_entries (JStr s) = Inr (zip (index_keys (length s)) (map (\<lambda>c. JStr [c]) s))"
| "object_entries (JBool _) = Inr []"
| "object_entries (JNum _) = Inr []"

subsection \<open>Property reads\<close>

text \<open>
  What a property read returns. A manifest is a plain object, so a read of a name that
  is not its own property goes on to \<^verbatim>\<open>Object.prototype\<close> and finds one of its
  functions, or the prototype itself under \<^verbatim>\<open>__proto__\<close>. \<open>NoData\<close> stands for
  \<^verbatim>\<open>undefined\<close> and for a function or prototype object that the rules read no member
  of (a method that an array, a string, a number or a boolean inherits): none of these
  is identical to a parsed value.
\<close>

datatype js_value =
    NoData
  | Data json
  | BuiltinFunction string nat
  | ObjectPrototype

text \<open>
  The functions of \<^verbatim>\<open>Object.prototype\<close>, by property name, with their \<^verbatim>\<open>name\<close> and
  \<^verbatim>\<open>length\<close>; \<^verbatim>\<open>constructor\<close> is \<^verbatim>\<open>Object\<close>.
\<close>

definition object_prototype_functions :: "(string \<times> string \<times> nat) list" where
  "object_prototype_functions =
     [(''constructor'', ''Object'', 1),
      (''__defineGetter__'', ''__defineGetter__'', 2),
      (''__defineSetter__'', ''__defineSetter__'', 2),
      (''hasOwnProperty'', ''hasOwnProperty'', 1),
      (''__lookupGetter__'', ''__lookupGetter__'', 1),
      (''__lookupSetter__'', ''__lookupSetter__'', 1),
      (''isPrototypeOf'', ''isPrototypeOf'', 1),
      (''propertyIsEnumerable'', ''propertyIsEnumerable'', 1),
      (''toString'', ''toString'', 0),
      (''valueOf'', ''valueOf'', 0),
      (''toLocaleString'', ''toLocaleString'', 0)]"

text \<open>The member that a plain object inherits under a name it does not own.\<close>

definition object_prototype_member :: "string \<Rightarrow> js_value" where
  "object_prototype_member key =
     (if key = ''__proto__'' then ObjectPrototype
      else (case map_of object_prototype_functions key of
              None \<Rightarrow> NoData
            | Some (n, l) \<Rightarrow> BuiltinFunction n l))"

text \<open>\<^verbatim>\<open>object[key]\<close> on a plain object with the given own properties.\<close>

definition object_member :: "(string \<times> json) list \<Rightarrow> string \<Rightarrow> js_value" where
  "object_member kvs key =
     (case map_of kvs key of None \<Rightarrow> object_prototype_member key | Some v \<Rightarrow> Data v)"

text \<open>The own properties of an array or a string: \<^verbatim>\<open>length\<close> and the indices.\<close>

definition indexed_member :: "json list \<Rightarrow> string \<Rightarrow> js_value" where
  "indexed_member xs key =
     (if key = ''length'' then Data (JNum (int (length xs)))
      else (case map_of (zip (index_keys (length xs)) xs) key of
              None \<Rightarrow> NoData
            | Some v \<Rightarrow> Data v))"

text \<open>
  The own properties of a built-in function that hold data are \<^verbatim>\<open>name\<close> and
  \<^verbatim>\<open>length\<close>. It inherits \<^verbatim>\<open>caller\<close> and \<^verbatim>\<open>arguments\<close> from
  \<^verbatim>\<open>Function.prototype\<close>, where they are accessors that throw a TypeError.
\<close>

definition function_member :: "string \<Rightarrow> nat \<Rightarrow> string \<Rightarrow> js_error + js_value" where
  "function_member n l key =
     (if key = ''name'' then Inr (Data (JStr n))
      else if key = ''length'' then Inr (Data (JNum (int l)))
      else if key = ''caller'' \<or> key = ''arguments'' then Inl TypeError
      else Inr NoData)"

text \<open>
  \<^verbatim>\<open>current?.[key]\<close>: \<^verbatim>\<open>undefined\<close> when \<^verbatim>\<open>current\<close> is \<^verbatim>\<open>undefined\<close> or \<^verbatim>\<open>null\<close>,
  the member otherwise. The prototype of \<^verbatim>\<open>Object.prototype\<close> is \<^verbatim>\<open>null\<close>.
\<close>

fun optional_member :: "js_value \<Rightarrow> string \<Rightarrow> js_error + js_value" where
  "optional_member NoData key = Inr NoData"
| "optional_member (Data JNull) key = Inr NoData"
| "optional_member (Data (JObj kvs)) key = Inr (object_member kvs key)"
| "optional_member (Data (JArr xs)) key = Inr (indexed_member xs key)"
| "optional_member (Data (JStr s)) key = Inr (indexed_member (map (\<lambda>c. JStr [c]) s) key)"
| "optional_member (Data (JBool _)) key = Inr NoData"
| "optional_member (Data (JNum _)) key = Inr NoData"
| "optional_member (BuiltinFunction n l) key = function_member n l key"
| "optional_member ObjectPrototype key =
     Inr (if key = ''__proto__'' then Data JNull else object_prototype_member key)"

text \<open>\<^verbatim>\<open>current !== wanted\<close>, where \<^verbatim>\<open>wanted\<close> is a value of the template.\<close>

fun strict_ne :: "js_value \<Rightarrow> json \<Rightarrow> bool" where
  "strict_ne (Data c) wanted = (\<not> strict_eq c wanted)"
| "strict_ne _ wanted = True"

subsection \<open>Workspaces, dependencies and the project snapshot\<close>

record workspace =
  cwd :: string
  ws_ident :: "string option"
  manifest :: "(string \<times> json) list"

datatype dependency_type = Dependencies | DevDependencies | PeerDependencies

record dependency =
  dep_workspace :: workspace
  dep_ident :: string
  dep_range :: string
  dep_type :: dependency_type

text \<open>
  The \<^verbatim>\<open>Yarn\<close> object of the constraints context: the snapshot of the project and its
  accessors. The accessors belong to the package manager; they are modelled as the
  filters over the snapshot that its interface documents.
\<close>

record yarn =
  all_workspaces :: "workspace list"
  all_dependencies :: "dependency list"

definition Yarn_workspaces :: "yarn \<Rightarrow> workspace list" where
  "Yarn_workspaces Y = all_workspaces Y"

definition Yarn_dependencies :: "yarn \<Rightarrow> dependency list" where
  "Yarn_dependencies Y = all_dependencies Y"

definition Yarn_dependencies_ident :: "yarn \<Rightarrow> string \<Rightarrow> dependency list" where
  "Yarn_dependencies_ident Y i = filter (\<lambda>d. dep_ident d = i) (all_dependencies Y)"

definition Yarn_workspace_ident :: "yarn \<Rightarrow> string \<Rightarrow> workspace option" where
  "Yarn_workspace_ident Y i = find (\<lambda>w. ws_ident w = Some i) (all_workspaces Y)"

subsection \<open>Staged effects\<close>

text \<open>
  A rule never writes a manifest: each call of \<^verbatim>\<open>set\<close>, \<^verbatim>\<open>update\<close>, \<^verbatim>\<open>delete\<close> or
  \<^verbatim>\<open>error\<close> is recorded, in call order, with the object it was called on and its
  arguments. \<^verbatim>\<open>workspace.set\<close> is called with a field name or with an array of names.
\<close>

datatype set_path = PathString string | PathArray "string list"

datatype effect =
    WorkspaceSet workspace set_path json
  | WorkspaceError workspace string
  | DepUpdate dependency string
  | DepDelete dependency
  | DepError dependency string

fun is_diagnostic :: "effect \<Rightarrow> bool" where
  "is_diagnostic (WorkspaceError _ _) = True"
| "is_diagnostic (DepError _ _) = True"
| "is_diagnostic _ = False"

definition diagnostics :: "effect list \<Rightarrow> effect list" where
  "diagnostics effs = filter is_diagnostic effs"


text \<open>The ranges staged for one dependency, in call order, and the one that is staged last.\<close>

fun staged_ranges :: "effect list \<Rightarrow> dependency \<Rightarrow> string list" where
  "staged_ranges [] d = []"
| "staged_ranges (DepUpdate d' r # effs) d =
     (if d' = d then r # staged_ranges effs d else staged_ranges effs d)"
| "staged_ranges (_ # effs) d = staged_ranges effs d"

definition staged_range :: "effect list \<Rightarrow> dependency \<Rightarrow> string option" where
  "staged_range effs d =
     (case staged_ranges effs d of [] \<Rightarrow> None | r # rs \<Rightarrow> Some (last (r # rs)))"

section \<open>The dependency rules of the first constraints file\<close>

definition allowedRanges :: "(string \<times> string) list" where
  "allowedRanges = [(''expo'', ''~50.0.0'')]"

text \<open>
  \<^verbatim>\<open>allowedRanges.forEach((range, dependency) => ...)\<close> visits the entries of the Map in
  insertion order; the Map is the list of its entries, one per key.
\<close>

fun enforceDependencyRanges :: "yarn \<Rightarrow> (string \<times> string) list \<Rightarrow> effect list" where
  "enforceDependencyRanges Y [] = []"
| "enforceDependencyRanges Y ((dependency, range_wanted) # rest) =
     map (\<lambda>dep. DepUpdate dep range_wanted) (Yarn_dependencies_ident Y dependency)
     @ enforceDependencyRanges Y rest"

definition constraints_part_000 :: "yarn \<Rightarrow> effect list" where
  "constraints_part_000 ctx = enforceDependencyRanges ctx allowedRanges"

text \<open>
  The same file keeps four more rules as commented-out code, and the calls of them in
  \<^verbatim>\<open>constraints\<close> are commented out as well. Two of them are transcribed here from
  that text, for the statements that are about them; \<open>constraints_part_000\<close> runs neither.
\<close>

definition requiredWorkspacesFields :: "string list" where
  "requiredWorkspacesFields = [''name'', ''version'', ''author'', ''license'', ''description'']"

definition forbiddenDependencies :: "string list" where
  "forbiddenDependencies = [''yup'', ''lodash'', ''vega'']"

text \<open>The message \<^verbatim>\<open>`Missing required field: ${field}`\<close>.\<close>

definition missing_field_message :: "string \<Rightarrow> string" where
  "missing_field_message field = ''Missing required field: '' @ field"

text \<open>\<^verbatim>\<open>requiredFields.forEach\<close> over one workspace; \<^verbatim>\<open>existingKeys\<close> are the manifest's keys.\<close>

fun missing_field_errors :: "workspace \<Rightarrow> string list \<Rightarrow> effect list" where
  "missing_field_errors w [] = []"
| "missing_field_errors w (field # rest) =
     (if field \<notin> set (map fst (manifest w))
      then WorkspaceError w (missing_field_message field) # missing_field_errors w rest
      else missing_field_errors w rest)"

fun validate_workspaces :: "workspace list \<Rightarrow> string list \<Rightarrow> effect list" where
  "validate_workspaces [] requiredFields = []"
| "validate_workspaces (w # rest) requiredFields =
     missing_field_errors w requiredFields @ validate_workspaces rest requiredFields"

definition validatePresenceOfRequiredFields :: "yarn \<Rightarrow> string list \<Rightarrow> effect list" where
  "validatePresenceOfRequiredFields Y requiredFields =
     validate_workspaces (Yarn_workspaces Y) requiredFields"

fun forbidDependencies :: "yarn \<Rightarrow> string list \<Rightarrow> effect list" where
  "forbidDependencies Y [] = []"
| "forbidDependencies Y (dependency # rest) =
     map DepDelete (Yarn_dependencies_ident Y dependency) @ forbidDependencies Y rest"

section \<open>The rules of yarn.config.cjs\<close>

subsection \<open>Loading the template\<close>

text \<open>
  What the file system holds at a path: nothing, a file that cannot be read, a text that
  \<^verbatim>\<open>JSON.parse\<close> rejects, or a text with the value it parses to. \<^verbatim>\<open>path.resolve\<close> is
  left out: paths are taken as resolved.
\<close>

datatype file_content = Unreadable | Malformed | Parsed json

type_synonym filesystem = "string \<Rightarrow> file_content option"

definition loadCustomPackageFields :: "filesystem \<Rightarrow> string \<Rightarrow> js_error + json" where
  "loadCustomPackageFields fs customPackagePath =
     (case fs customPackagePath of
        None \<Rightarrow> Inl (ConfigNotFound customPackagePath)
      | Some Unreadable \<Rightarrow> Inl ReadFailure
      | Some Malformed \<Rightarrow> Inl SyntaxError
      | Some (Parsed customPackageJson) \<Rightarrow> Inr customPackageJson)"

subsection \<open>Enforcing the template's fields\<close>

text \<open>
  The loop over the sub-fields of an object-valued template field, with the effects
  staged so far. A read that throws ends it, and what was staged stays staged.
\<close>

fun enforce_sub_fields ::
  "workspace \<Rightarrow> string \<Rightarrow> (string \<times> json) list \<Rightarrow> effect list
     \<Rightarrow> effect list \<times> js_error option" where
  "enforce_sub_fields w field [] staged = (staged, None)"
| "enforce_sub_fields w field ((subField, subValue) # rest) staged =
     (case optional_member (object_member (manifest w) field) subField of
        Inl e \<Rightarrow> (staged, Some e)
      | Inr currentSubValue \<Rightarrow>
          enforce_sub_fields w field rest
            (if strict_ne currentSubValue subValue
             then staged @ [WorkspaceSet w (PathArray [field, subField]) subValue]
             else staged))"

text \<open>
  The loop over the template's entries, for one workspace. The first branch is taken by
  an object that is neither an array nor \<^verbatim>\<open>null\<close>, whose \<^verbatim>\<open>Object.entries\<close> are its
  properties.
\<close>

fun enforce_entries ::
  "workspace \<Rightarrow> (string \<times> json) list \<Rightarrow> effect list \<Rightarrow> effect list \<times> js_error option" where
  "enforce_entries w [] staged = (staged, None)"
| "enforce_entries w ((field, JObj subs) # rest) staged =
     (case enforce_sub_fields w field subs staged of
        (staged', Some e) \<Rightarrow> (staged', Some e)
      | (staged', None) \<Rightarrow> enforce_entries w rest staged')"
| "enforce_entries w ((field, wanted) # rest) staged =
     enforce_entries w rest
       (if strict_ne (object_member (manifest w) field) wanted
        then staged @ [WorkspaceSet w (PathString field) wanted]
        else staged)"

text \<open>
  The loop over the workspaces. The result is the staged effects and the exception that
  ended the loop, if one did.
\<close>

fun enforce_workspaces ::
  "workspace list \<Rightarrow> json \<Rightarrow> effect list \<Rightarrow> effect list \<times> js_error option" where
  "enforce_workspaces [] template_fields staged = (staged, None)"
| "enforce_workspaces (w # rest) template_fields staged =
     (if cwd w = ''.'' then enforce_workspaces rest template_fields staged
      else (case object_entries template_fields of
              Inl e \<Rightarrow> (staged, Some e)
            | Inr entries \<Rightarrow>
                (case enforce_entries w entries staged of
                   (staged', Some e) \<Rightarrow> (staged', Some e)
                 | (staged', None) \<Rightarrow> enforce_workspaces rest template_fields staged')))"

definition enforceFieldsFromCustomPackage ::
  "yarn \<Rightarrow> json \<Rightarrow> effect list \<times> js_error option" where
  "enforceFieldsFromCustomPackage Y template_fields =
     enforce_workspaces (Yarn_workspaces Y) template_fields []"

definition constraints :: "filesystem \<Rightarrow> yarn \<Rightarrow> effect list \<times> js_error option" where
  "constraints fs ctx =
     (case loadCustomPackageFields fs ''./template-package.json'' of
        Inl e \<Rightarrow> ([], Some e)
      | Inr customPackageFields \<Rightarrow> enforceFieldsFromCustomPackage ctx customPackageFields)"

subsection \<open>Rules that are defined and not called\<close>

definition IGNORE_CONSISTENT_DEPENDENCIES_FOR :: "string list" where
  "IGNORE_CONSISTENT_DEPENDENCIES_FOR = [''.'', ''packages/docusaurus'']"

definition ignored :: "dependency \<Rightarrow> bool" where
  "ignored d = (cwd (dep_workspace d) \<in> set IGNORE_CONSISTENT_DEPENDENCIES_FOR)"

text \<open>The inner loop: the updates staged for \<open>dependency\<close>, one per other dependency kept.\<close>

fun consistent_updates :: "yarn \<Rightarrow> dependency \<Rightarrow> dependency list \<Rightarrow> effect list" where
  "consistent_updates Y dependency [] = []"
| "consistent_updates Y dependency (otherDependency # rest) =
     (if ignored otherDependency then consistent_updates Y dependency rest
      else if dep_type otherDependency = PeerDependencies
        then consistent_updates Y dependency rest
      else if (dep_type dependency = DevDependencies
               \<or> dep_type otherDependency = DevDependencies)
              \<and> Yarn_workspace_ident Y (dep_ident otherDependency) \<noteq> None
        then consistent_updates Y dependency rest
      else DepUpdate dependency (dep_range otherDependency)
           # consistent_updates Y dependency rest)"

fun consistent_dependencies :: "yarn \<Rightarrow> dependency list \<Rightarrow> effect list" where
  "consistent_dependencies Y [] = []"
| "consistent_dependencies Y (dependency # rest) =
     (if ignored dependency then consistent_dependencies Y rest
      else if dep_type dependency = PeerDependencies then consistent_dependencies Y rest
      else consistent_updates Y dependency (Yarn_dependencies_ident Y (dep_ident dependency))
           @ consistent_dependencies Y rest)"

definition enforceConsistentDependenciesAcrossTheProject :: "yarn \<Rightarrow> effect list" where
  "enforceConsistentDependenciesAcrossTheProject Y =
     consistent_dependencies Y (Yarn_dependencies Y)"

definition forbidDependency :: "yarn \<Rightarrow> string \<Rightarrow> string \<Rightarrow> effect list" where
  "forbidDependency Y i explanation =
     map (\<lambda>dependency. DepError dependency explanation) (Yarn_dependencies_ident Y i)"

section \<open>The icon component\<close>

text \<open>
  A rendered element: its component, its props and its children. The props of
  \<^verbatim>\<open>SendMoney\<close> are read through their \<^verbatim>\<open>color\<close> alone, which is \<open>None\<close> when the
  caller leaves it out.
\<close>

datatype element = Element string "(string \<times> string) list" "element list"

fun element_name :: "element \<Rightarrow> string" where
  "element_name (Element n ps cs) = n"

fun element_prop :: "element \<Rightarrow> string \<Rightarrow> string option" where
  "element_prop (Element n ps cs) k = map_of ps k"

fun element_children :: "element \<Rightarrow> element list" where
  "element_children (Element n ps cs) = cs"

definition send_money_path :: string where
  "send_money_path = ''M240-170Q136-197 68-282T0-480q0-113 68-198t172-112v84q-71 24-115.5 86T80-480q0 78 44.5 140T240-254v84Zm320 10q-133 0-226.5-93.5T240-480q0-133 93.5-226.5T560-800q66 0 124 25t102 69l-56 56q-33-33-76.5-51.5T560-720q-100 0-170 70t-70 170q0 100 70 170t170 70q50 0 93.5-18.5T730-310l56 56q-44 44-102 69t-124 25Zm240-160-56-56 64-64H520v-80h288l-64-64 56-56 160 160-160 160Z''"

definition SendMoney :: "string option \<Rightarrow> element" where
  "SendMoney color_prop =
     (let color = (case color_prop of None \<Rightarrow> ''#5f6368'' | Some c \<Rightarrow> c) in
      Element ''Svg''
        [(''height'', ''24px''), (''viewBox'', ''0 -960 960 960''), (''width'', ''24px''),
         (''fill'', color)]
        [Element ''Path'' [(''d'', send_money_path)] []])"

section \<open>Notions the properties are stated with\<close>

text \<open>The directory of the workspace an effect is staged on.\<close>

fun effect_cwd :: "effect \<Rightarrow> string" where
  "effect_cwd (WorkspaceSet w p v) = cwd w"
| "effect_cwd (WorkspaceError w m) = cwd w"
| "effect_cwd (DepUpdate d r) = cwd (dep_workspace d)"
| "effect_cwd (DepDelete d) = cwd (dep_workspace d)"
| "effect_cwd (DepError d m) = cwd (dep_workspace d)"






text \<open>
  The other dependencies whose range the consistency rule stages for \<open>d\<close>: not in an
  ignored workspace, not a peer dependency, and not a development dependency (on either
  side) on a package that is a workspace of the project.
\<close>

definition kept_for :: "yarn \<Rightarrow> dependency \<Rightarrow> dependency \<Rightarrow> bool" where
  "kept_for Y d other =
     (\<not> ignored other \<and> dep_type other \<noteq> PeerDependencies
      \<and> \<not> ((dep_type d = DevDependencies \<or> dep_type other = DevDependencies)
           \<and> Yarn_workspace_ident Y (dep_ident other) \<noteq> None))"

text \<open>
  A template entry one of whose sub-field reads throws in the workspace, and the
  snapshots in which the template rule meets such a read: in a workspace other than the
  root.
\<close>

fun read_throws :: "workspace \<Rightarrow> string \<times> json \<Rightarrow> bool" where
  "read_throws w (field, JObj subs) =
     list_ex (\<lambda>(subField, subValue).
        optional_member (object_member (manifest w) field) subField = Inl TypeError) subs"
| "read_throws w (field, wanted) = False"

definition meets_throwing_read :: "yarn \<Rightarrow> json \<Rightarrow> bool" where
  "meets_throwing_read Y template_fields =
     (case object_entries template_fields of
        Inl e \<Rightarrow> False
      | Inr entries \<Rightarrow>
          list_ex (\<lambda>w. cwd w \<noteq> ''.'' \<and> list_ex (read_throws w) entries) (Yarn_workspaces Y))"

text \<open>
  What the loops of the template rule stage when they run to their end: the sets of one
  object-valued entry, of all entries for one workspace, and for all workspaces but the
  root. A run that a throwing read ends has staged a prefix of them.
\<close>

fun sub_field_sets :: "workspace \<Rightarrow> string \<Rightarrow> (string \<times> json) list \<Rightarrow> effect list" where
  "sub_field_sets w field [] = []"
| "sub_field_sets w field ((subField, subValue) # rest) =
     (case optional_member (object_member (manifest w) field) subField of
        Inl e \<Rightarrow> []
      | Inr currentSubValue \<Rightarrow>
          if strict_ne currentSubValue subValue
          then [WorkspaceSet w (PathArray [field, subField]) subValue] else [])
     @ sub_field_sets w field rest"

fun entry_sets :: "workspace \<Rightarrow> (string \<times> json) list \<Rightarrow> effect list" where
  "entry_sets w [] = []"
| "entry_sets w ((field, JObj subs) # rest) = sub_field_sets w field subs @ entry_sets w rest"
| "entry_sets w ((field, wanted) # rest) =
     (if strict_ne (object_member (manifest w) field) wanted
      then [WorkspaceSet w (PathString field) wanted] else [])
     @ entry_sets w rest"

fun workspace_sets :: "workspace list \<Rightarrow> (string \<times> json) list \<Rightarrow> effect list" where
  "workspace_sets [] entries = []"
| "workspace_sets (w # rest) entries =
     (if cwd w = ''.'' then [] else entry_sets w entries) @ workspace_sets rest entries"

section \<open>Example snapshots\<close>

definition ws_root :: workspace where
  "ws_root = \<lparr>cwd = ''.'', ws_ident = Some ''micro-app-monorepo'',
              manifest = [(''name'', JStr ''micro-app-monorepo'')]\<rparr>"

definition ws_mobile :: workspace where
  "ws_mobile = \<lparr>cwd = ''apps/mobile'', ws_ident = Some ''mobile'',
                manifest = [(''name'', JStr ''mobile''), (''license'', JStr ''ISC'')]\<rparr>"

definition ws_core :: workspace where
  "ws_core = \<lparr>cwd = ''packages/core-components'', ws_ident = Some ''core-components'',
              manifest = [(''name'', JStr ''core-components''), (''license'', JStr ''MIT''),
                          (''files'', JArr [JStr ''dist'']),
                          (''publishConfig'', JObj [(''access'', JStr ''public'')])]\<rparr>"

definition expo49 :: dependency where
  "expo49 = \<lparr>dep_workspace = ws_mobile, dep_ident = ''expo'', dep_range = ''49.0.0'',
             dep_type = Dependencies\<rparr>"

definition expo50 :: dependency where
  "expo50 = \<lparr>dep_workspace = ws_core, dep_ident = ''expo'', dep_range = ''~50.0.0'',
             dep_type = Dependencies\<rparr>"

definition react18 :: dependency where
  "react18 = \<lparr>dep_workspace = ws_mobile, dep_ident = ''react'', dep_range = ''18.2.0'',
              dep_type = Dependencies\<rparr>"

definition react17 :: dependency where
  "react17 = \<lparr>dep_workspace = ws_core, dep_ident = ''react'', dep_range = ''17.0.2'',
              dep_type = Dependencies\<rparr>"

definition snapshot_expo49 :: yarn where
  "snapshot_expo49 = \<lparr>all_workspaces = [ws_root, ws_mobile], all_dependencies = [expo49]\<rparr>"

definition snapshot_mixed :: yarn where
  "snapshot_mixed = \<lparr>all_workspaces = [ws_root, ws_mobile, ws_core],
                      all_dependencies = [react18, expo49, expo50]\<rparr>"

definition snapshot_corrected :: yarn where
  "snapshot_corrected = \<lparr>all_workspaces = [ws_root, ws_core], all_dependencies = [expo50]\<rparr>"

definition snapshot_react :: yarn where
  "snapshot_react = \<lparr>all_workspaces = [ws_root, ws_mobile, ws_core],
                      all_dependencies = [react18, react17]\<rparr>"

text \<open>Templates: scalar values only, and with an array.\<close>

definition template_scalar :: json where
  "template_scalar = JObj [(''license'', JStr ''MIT''),
                           (''publishConfig'', JObj [(''access'', JStr ''public'')])]"

definition template_files :: json where
  "template_files = JObj [(''files'', JArr [JStr ''dist''])]"

definition template_inherited :: json where
  "template_inherited = JObj [(''constructor'', JObj [(''name'', JStr ''Object'')])]"






definition fs_scalar :: filesystem where
  "fs_scalar = [''./template-package.json'' \<mapsto> Parsed template_scalar]"


section \<open>Properties of the dependency-range rule\<close>

lemma staged_ranges_append:
  "staged_ranges (xs @ ys) d = staged_ranges xs d @ staged_ranges ys d"
  by (induction xs d rule: staged_ranges.induct) simp_all

lemma staged_ranges_updates:
  "staged_ranges (map (\<lambda>dep. DepUpdate dep r) ds) d = replicate (count_list ds d) r"
  by (induction ds) simp_all

lemma count_list_filter_ident:
  "count_list (filter (\<lambda>x. dep_ident x = k) ds) d =
     (if dep_ident d = k then count_list ds d else 0)"
  by (induction ds) auto

lemma staged_ranges_other_keys:
  "dep_ident d \<notin> fst ` set m \<Longrightarrow> staged_ranges (enforceDependencyRanges Y m) d = []"
  by (induction m) (auto simp: staged_ranges_append staged_ranges_updates
      Yarn_dependencies_ident_def count_list_filter_ident)

lemma staged_ranges_enforceDependencyRanges:
  "distinct (map fst m) \<Longrightarrow> map_of m (dep_ident d) = Some r \<Longrightarrow>
   staged_ranges (enforceDependencyRanges Y m) d
     = replicate (count_list (all_dependencies Y) d) r"
proof (induction m)
  case Nil
  then show ?case by simp
next
  case (Cons kv m)
  obtain k v where kv: "kv = (k, v)" by (cases kv)
  show ?case
  proof (cases "dep_ident d = k")
    case True
    with Cons.prems kv have "r = v" and "dep_ident d \<notin> fst ` set m" by auto
    then show ?thesis
      using True kv
      by (simp add: staged_ranges_append staged_ranges_updates staged_ranges_other_keys
          Yarn_dependencies_ident_def count_list_filter_ident)
  next
    case False
    with Cons kv show ?thesis
      by (simp add: staged_ranges_append staged_ranges_updates
          Yarn_dependencies_ident_def count_list_filter_ident)
  qed
qed

lemma staged_range_replicate: "0 < n \<Longrightarrow> staged_ranges effs d = replicate n r \<Longrightarrow>
    staged_range effs d = Some r \<and> set (staged_ranges effs d) = {r}"
  by (cases n) (simp_all add: staged_range_def)

lemma diagnostics_enforceDependencyRanges: "diagnostics (enforceDependencyRanges Y m) = []"
  by (induction m) (auto simp: diagnostics_def)

text \<open>
  C1. Whatever range a dependency declares, if its identifier is a key of the allowed
  ranges (a Map, so each key occurs once), every update the rule stages for it carries
  the configured range, and at least one is staged: the staged range is the configured one.
\<close>

theorem enforceDependencyRanges_stages_configured_range:
  assumes "distinct (map fst ranges)"
    and "d \<in> set (Yarn_dependencies Y)"
    and "map_of ranges (dep_ident d) = Some r"
  shows "staged_range (enforceDependencyRanges Y ranges) d = Some r
       \<and> set (staged_ranges (enforceDependencyRanges Y ranges) d) = {r}"
proof -
  from assms(2) have "0 < count_list (all_dependencies Y) d"
    using count_list_0_iff [of "all_dependencies Y" d] by (auto simp: Yarn_dependencies_def)
  then show ?thesis
    using staged_ranges_enforceDependencyRanges [OF assms(1) assms(3), of Y]
    by (rule staged_range_replicate)
qed

theorem enforceDependencyRanges_stages_configured_range_witness:
  "distinct (map fst allowedRanges)
   \<and> expo49 \<in> set (Yarn_dependencies snapshot_mixed)
   \<and> map_of allowedRanges (dep_ident expo49) = Some ''~50.0.0''
   \<and> dep_range expo49 = ''49.0.0''
   \<and> staged_range (enforceDependencyRanges snapshot_mixed allowedRanges) expo49 = Some ''~50.0.0''
   \<and> set (staged_ranges (enforceDependencyRanges snapshot_mixed allowedRanges) expo49) = {''~50.0.0''}"
proof -
  have h1: "distinct (map fst allowedRanges)"
    by (simp add: allowedRanges_def)
  have h2: "expo49 \<in> set (Yarn_dependencies snapshot_mixed)"
    by (simp add: Yarn_dependencies_def snapshot_mixed_def)
  have h3: "map_of allowedRanges (dep_ident expo49) = Some ''~50.0.0''"
    by (simp add: allowedRanges_def expo49_def)
  have h4: "dep_range expo49 = ''49.0.0''"
    by (simp add: expo49_def)
  show ?thesis
    using h1 h2 h3 h4 enforceDependencyRanges_stages_configured_range [OF h1 h2 h3]
    by simp
qed

lemma staged_ranges_member: "r \<in> set (staged_ranges effs d) \<longleftrightarrow> DepUpdate d r \<in> set effs"
  by (induction effs d rule: staged_ranges.induct) auto

text \<open>
  C5. A snapshot with a dependency on expo whose range is 49.0.0: the evaluation stages
  the update of that dependency to ~50.0.0 and emits no diagnostic.
\<close>

theorem expo_49_is_corrected_not_reported:
  assumes "d \<in> set (Yarn_dependencies Y)"
    and "dep_ident d = ''expo''"
    and "dep_range d = ''49.0.0''"
  shows "staged_range (constraints_part_000 Y) d = Some ''~50.0.0''
       \<and> DepUpdate d ''~50.0.0'' \<in> set (constraints_part_000 Y)
       \<and> diagnostics (constraints_part_000 Y) = []"
proof -
  have keys: "distinct (map fst allowedRanges)"
    and conf: "map_of allowedRanges (dep_ident d) = Some ''~50.0.0''"
    using assms(2) by (simp_all add: allowedRanges_def)
  from assms(1) have "0 < count_list (all_dependencies Y) d"
    using count_list_0_iff [of "all_dependencies Y" d] by (auto simp: Yarn_dependencies_def)
  then have staged: "staged_range (constraints_part_000 Y) d = Some ''~50.0.0''
      \<and> set (staged_ranges (constraints_part_000 Y) d) = {''~50.0.0''}"
    unfolding constraints_part_000_def
    using staged_ranges_enforceDependencyRanges [OF keys conf, of Y]
    by (rule staged_range_replicate)
  then have "DepUpdate d ''~50.0.0'' \<in> set (constraints_part_000 Y)"
    using staged_ranges_member [of "''~50.0.0''" "constraints_part_000 Y" d] by simp
  with staged show ?thesis
    by (simp add: constraints_part_000_def diagnostics_enforceDependencyRanges)
qed

theorem expo_49_is_corrected_not_reported_witness:
  "expo49 \<in> set (Yarn_dependencies snapshot_expo49)
   \<and> dep_ident expo49 = ''expo''
   \<and> dep_range expo49 = ''49.0.0''
   \<and> constraints_part_000 snapshot_expo49 = [DepUpdate expo49 ''~50.0.0'']
   \<and> staged_range (constraints_part_000 snapshot_expo49) expo49 = Some ''~50.0.0''
   \<and> DepUpdate expo49 ''~50.0.0'' \<in> set (constraints_part_000 snapshot_expo49)
   \<and> diagnostics (constraints_part_000 snapshot_expo49) = []"
proof -
  have h1: "expo49 \<in> set (Yarn_dependencies snapshot_expo49)"
    by (simp add: Yarn_dependencies_def snapshot_expo49_def)
  have h2: "dep_ident expo49 = ''expo''" and h3: "dep_range expo49 = ''49.0.0''"
    by (simp_all add: expo49_def)
  have run: "constraints_part_000 snapshot_expo49 = [DepUpdate expo49 ''~50.0.0'']"
    by (simp add: constraints_part_000_def allowedRanges_def snapshot_expo49_def
        Yarn_dependencies_ident_def expo49_def)
  show ?thesis
    using h1 h2 h3 run expo_49_is_corrected_not_reported [OF h1 h2 h3]
    by simp
qed

section \<open>Properties of the icon component\<close>

text \<open>
  C8. The icon is a function of its color prop alone: it returns an Svg element whose
  fill is the color given (the default grey when none is given) and whose only child is
  a Path with the same constant path data for every color.
\<close>

theorem SendMoney_renders_color_and_fixed_path:
  "element_name (SendMoney color_prop) = ''Svg''
   \<and> element_prop (SendMoney (Some c)) ''fill'' = Some c
   \<and> element_prop (SendMoney None) ''fill'' = Some ''#5f6368''
   \<and> element_children (SendMoney color_prop)
       = [Element ''Path'' [(''d'', send_money_path)] []]"
  by (simp add: SendMoney_def)

section \<open>Properties of the template rule\<close>

lemma strict_eq_primitive: "primitive v \<Longrightarrow> strict_eq c v = (c = v)"
  by (cases v; cases c) auto

lemma strict_eq_not_primitive: "\<not> primitive v \<Longrightarrow> strict_eq c v = False"
  by (cases v; cases c) auto

lemma strict_ne_iff: "strict_ne current v \<longleftrightarrow> current \<noteq> Data v \<or> \<not> primitive v"
  by (cases current; cases "primitive v")
     (auto simp: strict_eq_primitive strict_eq_not_primitive)

lemma optional_member_Inl:
  "optional_member x key = Inl e \<longleftrightarrow>
     (\<exists>n l. x = BuiltinFunction n l) \<and> (key = ''caller'' \<or> key = ''arguments'') \<and> e = TypeError"
proof (cases x)
  case (Data v)
  then show ?thesis by (cases v) auto
next
  case (BuiltinFunction n l)
  then show ?thesis by (auto simp: function_member_def)
qed auto

lemma object_entries_Inl: "object_entries tf = Inl e \<longleftrightarrow> tf = JNull \<and> e = TypeError"
  by (cases tf) auto

lemma enforce_sub_fields_result:
  "\<exists>pre post. fst (enforce_sub_fields w field subs staged) = staged @ pre
      \<and> sub_field_sets w field subs = pre @ post
      \<and> (snd (enforce_sub_fields w field subs staged) = None \<longrightarrow> post = [])"
proof (induction subs arbitrary: staged)
  case Nil
  then show ?case by simp
next
  case (Cons sub subs)
  obtain sf sv where sub: "sub = (sf, sv)" by (cases sub)
  show ?case
  proof (cases "optional_member (object_member (manifest w) field) sf")
    case (Inl e)
    with sub show ?thesis by simp
  next
    case (Inr cur)
    show ?thesis
    proof (cases "strict_ne cur sv")
      case True
      from Cons.IH [of "staged @ [WorkspaceSet w (PathArray [field, sf]) sv]"]
      obtain pre post where
        "fst (enforce_sub_fields w field subs (staged @ [WorkspaceSet w (PathArray [field, sf]) sv]))
           = (staged @ [WorkspaceSet w (PathArray [field, sf]) sv]) @ pre"
        "sub_field_sets w field subs = pre @ post"
        "snd (enforce_sub_fields w field subs (staged @ [WorkspaceSet w (PathArray [field, sf]) sv])) = None
           \<longrightarrow> post = []"
        by auto
      with sub Inr True show ?thesis
        by (intro exI [of _ "WorkspaceSet w (PathArray [field, sf]) sv # pre"] exI [of _ post]) simp
    next
      case False
      from Cons.IH [of staged]
      obtain pre post where
        "fst (enforce_sub_fields w field subs staged) = staged @ pre"
        "sub_field_sets w field subs = pre @ post"
        "snd (enforce_sub_fields w field subs staged) = None \<longrightarrow> post = []"
        by auto
      with sub Inr False show ?thesis
        by (intro exI [of _ pre] exI [of _ post]) simp
    qed
  qed
qed

lemma enforce_sub_fields_snd:
  "snd (enforce_sub_fields w field subs staged) =
     (if list_ex (\<lambda>(subField, subValue).
           optional_member (object_member (manifest w) field) subField = Inl TypeError) subs
      then Some TypeError else None)"
proof (induction subs arbitrary: staged)
  case Nil
  then show ?case by simp
next
  case (Cons sub subs)
  obtain sf sv where sub: "sub = (sf, sv)" by (cases sub)
  show ?case
  proof (cases "optional_member (object_member (manifest w) field) sf")
    case (Inl e)
    then have "e = TypeError" by (simp add: optional_member_Inl)
    with Inl sub show ?thesis by simp
  next
    case (Inr cur)
    with sub Cons.IH show ?thesis by simp
  qed
qed

lemma enforce_entries_result:
  "\<exists>pre post. fst (enforce_entries w entries staged) = staged @ pre
      \<and> entry_sets w entries = pre @ post
      \<and> (snd (enforce_entries w entries staged) = None \<longrightarrow> post = [])"
proof (induction w entries staged rule: enforce_entries.induct)
  case (1 w staged)
  then show ?case by simp
next
  case (2 w field subs rest staged)
  from enforce_sub_fields_result [of w field subs staged]
  obtain pre post where sub:
    "fst (enforce_sub_fields w field subs staged) = staged @ pre"
    "sub_field_sets w field subs = pre @ post"
    "snd (enforce_sub_fields w field subs staged) = None \<longrightarrow> post = []"
    by auto
  show ?case
  proof (cases "snd (enforce_sub_fields w field subs staged)")
    case None
    with sub have whole: "enforce_sub_fields w field subs staged = (staged @ pre, None)"
      and post: "post = []"
      by (simp_all add: prod_eq_iff)
    from "2.IH" [OF whole [symmetric] refl]
    obtain pre' post' where
      "fst (enforce_entries w rest (staged @ pre)) = (staged @ pre) @ pre'"
      "entry_sets w rest = pre' @ post'"
      "snd (enforce_entries w rest (staged @ pre)) = None \<longrightarrow> post' = []"
      by auto
    with whole sub post show ?thesis
      by (intro exI [of _ "pre @ pre'"] exI [of _ post']) simp
  next
    case (Some e)
    with sub have whole: "enforce_sub_fields w field subs staged = (staged @ pre, Some e)"
      by (simp add: prod_eq_iff)
    with sub show ?thesis
      by (intro exI [of _ pre] exI [of _ "post @ entry_sets w rest"]) simp
  qed
qed (auto 0 3 intro!: exI)

lemma enforce_entries_snd:
  "snd (enforce_entries w entries staged) =
     (if list_ex (read_throws w) entries then Some TypeError else None)"
proof (induction w entries staged rule: enforce_entries.induct)
  case (2 w field subs rest staged)
  show ?case
  proof (cases "enforce_sub_fields w field subs staged")
    case (Pair staged' err)
    with enforce_sub_fields_snd [of w field subs staged]
    have err: "err = (if list_ex (\<lambda>(subField, subValue).
           optional_member (object_member (manifest w) field) subField = Inl TypeError) subs
      then Some TypeError else None)"
      by simp
    show ?thesis
    proof (cases err)
      case None
      with Pair have whole: "enforce_sub_fields w field subs staged = (staged', None)"
        by simp
      from "2.IH" [OF whole [symmetric] refl] whole err None show ?thesis
        by (simp split: if_splits)
    next
      case (Some e)
      with Pair err show ?thesis
        by (simp split: if_splits)
    qed
  qed
qed simp_all

lemma enforce_workspaces_result:
  "object_entries tf = Inr entries \<Longrightarrow>
   \<exists>pre post. fst (enforce_workspaces ws tf staged) = staged @ pre
      \<and> workspace_sets ws entries = pre @ post
      \<and> (snd (enforce_workspaces ws tf staged) = None \<longrightarrow> post = [])"
proof (induction ws arbitrary: staged)
  case Nil
  then show ?case by simp
next
  case (Cons w ws)
  show ?case
  proof (cases "cwd w = ''.''")
    case True
    with Cons show ?thesis by simp
  next
    case False
    from enforce_entries_result [of w entries staged]
    obtain pre post where one:
      "fst (enforce_entries w entries staged) = staged @ pre"
      "entry_sets w entries = pre @ post"
      "snd (enforce_entries w entries staged) = None \<longrightarrow> post = []"
      by auto
    show ?thesis
    proof (cases "snd (enforce_entries w entries staged)")
      case None
      with one have whole: "enforce_entries w entries staged = (staged @ pre, None)"
        and post: "post = []"
        by (simp_all add: prod_eq_iff)
      from Cons.IH [OF Cons.prems, of "staged @ pre"]
      obtain pre' post' where
        "fst (enforce_workspaces ws tf (staged @ pre)) = (staged @ pre) @ pre'"
        "workspace_sets ws entries = pre' @ post'"
        "snd (enforce_workspaces ws tf (staged @ pre)) = None \<longrightarrow> post' = []"
        by auto
      with whole one post False Cons.prems show ?thesis
        by (intro exI [of _ "pre @ pre'"] exI [of _ post']) simp
    next
      case (Some e)
      with one have whole: "enforce_entries w entries staged = (staged @ pre, Some e)"
        by (simp add: prod_eq_iff)
      with one False Cons.prems show ?thesis
        by (intro exI [of _ pre] exI [of _ "post @ workspace_sets ws entries"]) simp
    qed
  qed
qed

lemma enforce_workspaces_Inl:
  "object_entries tf = Inl e \<Longrightarrow>
   enforce_workspaces ws tf staged =
     (staged, if list_ex (\<lambda>w. cwd w \<noteq> ''.'') ws then Some e else None)"
  by (induction ws arbitrary: staged) auto

lemma enforce_workspaces_snd:
  "object_entries tf = Inr entries \<Longrightarrow>
   snd (enforce_workspaces ws tf staged) =
     (if list_ex (\<lambda>w. cwd w \<noteq> ''.'' \<and> list_ex (read_throws w) entries) ws
      then Some TypeError else None)"
proof (induction ws arbitrary: staged)
  case Nil
  then show ?case by simp
next
  case (Cons w ws)
  show ?case
  proof (cases "cwd w = ''.''")
    case True
    with Cons show ?thesis by simp
  next
    case False
    show ?thesis
    proof (cases "enforce_entries w entries staged")
      case (Pair staged' err)
      with enforce_entries_snd [of w entries staged]
      have err: "err = (if list_ex (read_throws w) entries then Some TypeError else None)"
        by simp
      show ?thesis
      proof (cases err)
        case None
        with Pair err False Cons show ?thesis
          by (simp split: if_splits)
      next
        case (Some e)
        with Pair err False Cons.prems show ?thesis
          by (simp split: if_splits)
      qed
    qed
  qed
qed

lemma enforce_workspaces_skip_root:
  "enforce_workspaces ws tf staged
     = enforce_workspaces (filter (\<lambda>w. cwd w \<noteq> ''.'') ws) tf staged"
  by (induction ws arbitrary: staged) (auto split: sum.splits prod.splits option.splits)

lemma set_sub_field_sets:
  "set (sub_field_sets w field subs) =
     {WorkspaceSet w (PathArray [field, subField]) subValue | subField subValue.
        (subField, subValue) \<in> set subs
        \<and> (\<exists>cur. optional_member (object_member (manifest w) field) subField = Inr cur
              \<and> strict_ne cur subValue)}"
proof (induction subs)
  case Nil
  then show ?case by simp
next
  case (Cons sub subs)
  obtain sf sv where sub: "sub = (sf, sv)" by (cases sub)
  show ?case
  proof (cases "optional_member (object_member (manifest w) field) sf")
    case (Inl e)
    with sub Cons show ?thesis by auto
  next
    case (Inr cur)
    with sub Cons show ?thesis by auto
  qed
qed

lemma string_set_in_entry_sets:
  "WorkspaceSet w' (PathString f) v \<in> set (entry_sets w entries) \<longleftrightarrow>
     w' = w \<and> (f, v) \<in> set entries \<and> \<not> plain_object v
     \<and> strict_ne (object_member (manifest w) f) v"
  by (induction w entries rule: entry_sets.induct)
     (auto simp: set_sub_field_sets)

lemma array_set_in_entry_sets:
  "WorkspaceSet w' (PathArray p) sv \<in> set (entry_sets w entries) \<longleftrightarrow>
     w' = w \<and> (\<exists>f sf subs cur. p = [f, sf] \<and> (f, JObj subs) \<in> set entries
        \<and> (sf, sv) \<in> set subs
        \<and> optional_member (object_member (manifest w) f) sf = Inr cur \<and> strict_ne cur sv)"
  by (induction w entries rule: entry_sets.induct)
     (auto simp: set_sub_field_sets)

lemma only_sets_in_entry_sets:
  "e \<in> set (entry_sets w entries) \<Longrightarrow> \<exists>p v. e = WorkspaceSet w p v"
  by (induction w entries rule: entry_sets.induct)
     (auto simp: set_sub_field_sets split: if_splits)

lemma set_workspace_sets:
  "set (workspace_sets ws entries) =
     (\<Union>w \<in> {w \<in> set ws. cwd w \<noteq> ''.''}. set (entry_sets w entries))"
  by (induction ws) auto

lemma enforceFields_sound:
  "e \<in> set (fst (enforceFieldsFromCustomPackage Y tf)) \<Longrightarrow>
   \<exists>entries w. object_entries tf = Inr entries \<and> w \<in> set (Yarn_workspaces Y)
      \<and> cwd w \<noteq> ''.'' \<and> e \<in> set (entry_sets w entries)"
proof (cases "object_entries tf")
  case (Inl err)
  assume "e \<in> set (fst (enforceFieldsFromCustomPackage Y tf))"
  with Inl show ?thesis
    by (simp add: enforceFieldsFromCustomPackage_def enforce_workspaces_Inl)
next
  case (Inr entries)
  assume e: "e \<in> set (fst (enforceFieldsFromCustomPackage Y tf))"
  from enforce_workspaces_result [OF Inr, of "Yarn_workspaces Y" "[]"]
  obtain pre post where "fst (enforce_workspaces (Yarn_workspaces Y) tf []) = pre"
    and "workspace_sets (Yarn_workspaces Y) entries = pre @ post"
    by auto
  with e have "e \<in> set (workspace_sets (Yarn_workspaces Y) entries)"
    by (simp add: enforceFieldsFromCustomPackage_def)
  with Inr show ?thesis
    by (auto simp: set_workspace_sets)
qed

lemma enforceFields_complete:
  "object_entries tf = Inr entries \<Longrightarrow> snd (enforceFieldsFromCustomPackage Y tf) = None \<Longrightarrow>
   fst (enforceFieldsFromCustomPackage Y tf) = workspace_sets (Yarn_workspaces Y) entries"
proof -
  assume entries: "object_entries tf = Inr entries"
    and completes: "snd (enforceFieldsFromCustomPackage Y tf) = None"
  from enforce_workspaces_result [OF entries, of "Yarn_workspaces Y" "[]"]
  obtain pre post where "fst (enforce_workspaces (Yarn_workspaces Y) tf []) = pre"
    and "workspace_sets (Yarn_workspaces Y) entries = pre @ post"
    and "snd (enforce_workspaces (Yarn_workspaces Y) tf []) = None \<longrightarrow> post = []"
    by auto
  with completes show ?thesis
    by (simp add: enforceFieldsFromCustomPackage_def)
qed

lemma enforceFields_exception:
  "snd (enforceFieldsFromCustomPackage Y tf) =
     (if (tf = JNull \<and> list_ex (\<lambda>w. cwd w \<noteq> ''.'') (Yarn_workspaces Y))
         \<or> meets_throwing_read Y tf
      then Some TypeError else None)"
proof (cases "object_entries tf")
  case (Inl e)
  then show ?thesis
    by (simp add: enforceFieldsFromCustomPackage_def enforce_workspaces_Inl object_entries_Inl
        meets_throwing_read_def)
next
  case (Inr entries)
  then have "tf \<noteq> JNull" by auto
  with Inr show ?thesis
    by (simp add: enforceFieldsFromCustomPackage_def enforce_workspaces_snd
        meets_throwing_read_def)
qed


lemma effect_of_entry_sets:
  "e \<in> set (entry_sets w entries) \<Longrightarrow> effect_cwd e = cwd w \<and> \<not> is_diagnostic e"
  by (auto dest: only_sets_in_entry_sets)

lemma diagnostics_enforceFields:
  "diagnostics (fst (enforceFieldsFromCustomPackage Y tf)) = []"
  by (auto simp: diagnostics_def filter_empty_conv dest!: enforceFields_sound effect_of_entry_sets)

lemma diagnostics_constraints: "diagnostics (fst (constraints fs Y)) = []"
  by (simp add: constraints_def diagnostics_enforceFields split: sum.splits)
     (simp add: diagnostics_def)

lemma run_mixed_scalar:
  "enforceFieldsFromCustomPackage snapshot_mixed template_scalar =
     ([WorkspaceSet ws_mobile (PathString ''license'') (JStr ''MIT''),
       WorkspaceSet ws_mobile (PathArray [''publishConfig'', ''access'']) (JStr ''public'')],
      None)"
  by (simp add: enforceFieldsFromCustomPackage_def Yarn_workspaces_def snapshot_mixed_def
      template_scalar_def ws_root_def ws_mobile_def ws_core_def object_member_def
      object_prototype_member_def object_prototype_functions_def)

lemma run_mixed_inherited:
  "enforceFieldsFromCustomPackage snapshot_mixed template_inherited = ([], None)"
  by (simp add: enforceFieldsFromCustomPackage_def Yarn_workspaces_def snapshot_mixed_def
      template_inherited_def ws_root_def ws_mobile_def ws_core_def object_member_def
      object_prototype_member_def object_prototype_functions_def function_member_def)


lemma run_corrected_files:
  "enforceFieldsFromCustomPackage snapshot_corrected template_files =
     ([WorkspaceSet ws_core (PathString ''files'') (JArr [JStr ''dist''])], None)"
  by (simp add: enforceFieldsFromCustomPackage_def Yarn_workspaces_def snapshot_corrected_def
      template_files_def ws_root_def ws_core_def object_member_def)

lemma reads_complete:
  assumes "object_entries tf = Inr entries"
    and "snd (enforceFieldsFromCustomPackage Y tf) = None"
    and "w \<in> set (Yarn_workspaces Y)" and "cwd w \<noteq> ''.''"
    and "(f, JObj subs) \<in> set entries" and "(sf, sv) \<in> set subs"
  shows "\<exists>cur. optional_member (object_member (manifest w) f) sf = Inr cur"
proof (cases "optional_member (object_member (manifest w) f) sf")
  case (Inl e)
  then have "optional_member (object_member (manifest w) f) sf = Inl TypeError"
    by (simp add: optional_member_Inl)
  with assms(6) have "read_throws w (f, JObj subs)"
    by (auto simp: list_ex_iff)
  with assms(5) have "list_ex (read_throws w) entries"
    unfolding list_ex_iff by blast
  with assms(3,4) have "list_ex (\<lambda>w. cwd w \<noteq> ''.'' \<and> list_ex (read_throws w) entries)
      (Yarn_workspaces Y)"
    unfolding list_ex_iff by blast
  with assms(1) have "meets_throwing_read Y tf"
    by (simp add: meets_throwing_read_def)
  with assms(2) show ?thesis
    by (simp add: enforceFields_exception)
next
  case (Inr cur)
  then show ?thesis by simp
qed

text \<open>
  C10. The rule stages nothing on the root workspace: no effect it stages is on a
  workspace whose directory is ".", and its result is the one it has on the snapshot
  without the root workspace, whatever the template and the snapshot are.
\<close>

theorem enforceFieldsFromCustomPackage_skips_root:
  "(\<forall>e \<in> set (fst (enforceFieldsFromCustomPackage Y template_fields)). effect_cwd e \<noteq> ''.'')
   \<and> enforceFieldsFromCustomPackage Y template_fields
     = enforceFieldsFromCustomPackage
         (Y\<lparr>all_workspaces := filter (\<lambda>w. cwd w \<noteq> ''.'') (all_workspaces Y)\<rparr>)
         template_fields"
proof
  show "\<forall>e \<in> set (fst (enforceFieldsFromCustomPackage Y template_fields)).
          effect_cwd e \<noteq> ''.''"
    by (auto dest!: enforceFields_sound effect_of_entry_sets)
  show "enforceFieldsFromCustomPackage Y template_fields
     = enforceFieldsFromCustomPackage
         (Y\<lparr>all_workspaces := filter (\<lambda>w. cwd w \<noteq> ''.'') (all_workspaces Y)\<rparr>)
         template_fields"
    using enforce_workspaces_skip_root [of "all_workspaces Y" template_fields "[]"]
    by (simp add: enforceFieldsFromCustomPackage_def Yarn_workspaces_def)
qed

theorem enforceFieldsFromCustomPackage_skips_root_witness:
  "ws_root \<in> set (Yarn_workspaces snapshot_mixed)
   \<and> cwd ws_root = ''.''
   \<and> map_of (manifest ws_root) ''license'' = None
   \<and> WorkspaceSet ws_mobile (PathString ''license'') (JStr ''MIT'')
       \<in> set (fst (enforceFieldsFromCustomPackage snapshot_mixed template_scalar))
   \<and> effect_cwd (WorkspaceSet ws_mobile (PathString ''license'') (JStr ''MIT'')) \<noteq> ''.''
   \<and> map effect_cwd (fst (enforceFieldsFromCustomPackage snapshot_mixed template_scalar))
       = [''apps/mobile'', ''apps/mobile'']"
proof -
  have h: "WorkspaceSet ws_mobile (PathString ''license'') (JStr ''MIT'')
       \<in> set (fst (enforceFieldsFromCustomPackage snapshot_mixed template_scalar))"
    by (simp add: run_mixed_scalar)
  have away: "effect_cwd (WorkspaceSet ws_mobile (PathString ''license'') (JStr ''MIT'')) \<noteq> ''.''"
    using enforceFieldsFromCustomPackage_skips_root [of snapshot_mixed template_scalar] h
    by blast
  have root: "ws_root \<in> set (Yarn_workspaces snapshot_mixed) \<and> cwd ws_root = ''.''
      \<and> map_of (manifest ws_root) ''license'' = None"
    by (simp add: Yarn_workspaces_def snapshot_mixed_def ws_root_def)
  have targets: "map effect_cwd (fst (enforceFieldsFromCustomPackage snapshot_mixed template_scalar))
       = [''apps/mobile'', ''apps/mobile'']"
    by (simp add: run_mixed_scalar ws_mobile_def)
  show ?thesis
    using h away root targets by blast
qed

text \<open>
  C9, as stated, fails: the template and the manifest of a workspace both hold
  \<^verbatim>\<open>"files": ["dist"]\<close>, so the current value does not differ from the enforced one, and
  the rule stages the field all the same, since \<^verbatim>\<open>!==\<close> compares two arrays by identity.
\<close>

theorem equal_array_is_staged_again:
  "cwd ws_core = ''packages/core-components''
   \<and> object_member (manifest ws_core) ''files'' = Data (JArr [JStr ''dist''])
   \<and> object_entries template_files = Inr [(''files'', JArr [JStr ''dist''])]
   \<and> enforceFieldsFromCustomPackage snapshot_corrected template_files
       = ([WorkspaceSet ws_core (PathString ''files'') (JArr [JStr ''dist''])], None)"
  by (simp add: run_corrected_files) (simp add: ws_core_def template_files_def object_member_def)

text \<open>
  C9, amended. For a run of the rule that completes, a workspace of the snapshot other
  than the root and the entries of the template: a field whose enforced value is not an
  object is set if and only if the manifest's value differs from the enforced one or
  the enforced one is an array, which is set even when the manifest holds an equal
  array; a sub-field is set, by the path of field and sub-field, if and only if it is
  listed under an object-valued field and its current value differs from the listed one
  or the listed one is an array or an object; and the rule stages nothing but sets of
  the template's fields and listed sub-fields to their enforced values, on workspaces
  other than the root, so every other sub-field of a manifest field is left untouched.
  The current value is what the read returns, also when the manifest inherits it.
\<close>

theorem enforceFieldsFromCustomPackage_sets_iff_not_identical:
  assumes "object_entries template_fields = Inr entries"
    and "snd (enforceFieldsFromCustomPackage Y template_fields) = None"
    and "w \<in> set (Yarn_workspaces Y)"
    and "cwd w \<noteq> ''.''"
  shows "(WorkspaceSet w (PathString field) wanted
            \<in> set (fst (enforceFieldsFromCustomPackage Y template_fields))
          \<longleftrightarrow> (field, wanted) \<in> set entries \<and> \<not> plain_object wanted
              \<and> (object_member (manifest w) field \<noteq> Data wanted \<or> \<not> primitive wanted))
       \<and> (WorkspaceSet w (PathArray p) subValue
            \<in> set (fst (enforceFieldsFromCustomPackage Y template_fields))
          \<longleftrightarrow> (\<exists>f subField subs. p = [f, subField] \<and> (f, JObj subs) \<in> set entries
                \<and> (subField, subValue) \<in> set subs
                \<and> (optional_member (object_member (manifest w) f) subField
                      \<noteq> Inr (Data subValue)
                   \<or> \<not> primitive subValue)))
       \<and> (\<forall>e \<in> set (fst (enforceFieldsFromCustomPackage Y template_fields)).
             \<exists>w' \<in> set (Yarn_workspaces Y). cwd w' \<noteq> ''.''
               \<and> ((\<exists>f v. e = WorkspaceSet w' (PathString f) v \<and> (f, v) \<in> set entries
                      \<and> \<not> plain_object v)
                  \<or> (\<exists>f sf subs sv. e = WorkspaceSet w' (PathArray [f, sf]) sv
                      \<and> (f, JObj subs) \<in> set entries \<and> (sf, sv) \<in> set subs)))"
proof (intro conjI)
  have staged: "set (fst (enforceFieldsFromCustomPackage Y template_fields))
      = (\<Union>w \<in> {w \<in> set (Yarn_workspaces Y). cwd w \<noteq> ''.''}. set (entry_sets w entries))"
    using enforceFields_complete [OF assms(1,2)] by (simp add: set_workspace_sets)
  show "WorkspaceSet w (PathString field) wanted
            \<in> set (fst (enforceFieldsFromCustomPackage Y template_fields))
          \<longleftrightarrow> (field, wanted) \<in> set entries \<and> \<not> plain_object wanted
              \<and> (object_member (manifest w) field \<noteq> Data wanted \<or> \<not> primitive wanted)"
    using assms(3,4) by (auto simp: staged string_set_in_entry_sets strict_ne_iff)
  show "WorkspaceSet w (PathArray p) subValue
            \<in> set (fst (enforceFieldsFromCustomPackage Y template_fields))
          \<longleftrightarrow> (\<exists>f subField subs. p = [f, subField] \<and> (f, JObj subs) \<in> set entries
                \<and> (subField, subValue) \<in> set subs
                \<and> (optional_member (object_member (manifest w) f) subField
                      \<noteq> Inr (Data subValue)
                   \<or> \<not> primitive subValue))"
    (is "?l \<longleftrightarrow> ?r")
  proof
    assume ?l
    with assms(3,4) show ?r
      by (auto simp: staged array_set_in_entry_sets strict_ne_iff)
  next
    assume ?r
    then obtain f subField subs where p: "p = [f, subField]"
      and listed: "(f, JObj subs) \<in> set entries" "(subField, subValue) \<in> set subs"
      and differs: "optional_member (object_member (manifest w) f) subField
                      \<noteq> Inr (Data subValue) \<or> \<not> primitive subValue"
      by blast
    from reads_complete [OF assms(1,2,3,4) listed]
    obtain cur where cur: "optional_member (object_member (manifest w) f) subField = Inr cur"
      by blast
    with differs have "strict_ne cur subValue"
      by (auto simp: strict_ne_iff)
    with cur listed p assms(3,4) show ?l
      by (auto simp: staged array_set_in_entry_sets)
  qed
  show "\<forall>e \<in> set (fst (enforceFieldsFromCustomPackage Y template_fields)).
             \<exists>w' \<in> set (Yarn_workspaces Y). cwd w' \<noteq> ''.''
               \<and> ((\<exists>f v. e = WorkspaceSet w' (PathString f) v \<and> (f, v) \<in> set entries
                      \<and> \<not> plain_object v)
                  \<or> (\<exists>f sf subs sv. e = WorkspaceSet w' (PathArray [f, sf]) sv
                      \<and> (f, JObj subs) \<in> set entries \<and> (sf, sv) \<in> set subs))"
  proof
    fix e
    assume "e \<in> set (fst (enforceFieldsFromCustomPackage Y template_fields))"
    then obtain w' where w': "w' \<in> set (Yarn_workspaces Y)" "cwd w' \<noteq> ''.''"
      and e: "e \<in> set (entry_sets w' entries)"
      by (auto simp: staged)
    from only_sets_in_entry_sets [OF e] obtain q v where shape: "e = WorkspaceSet w' q v"
      by blast
    have "(\<exists>f v. e = WorkspaceSet w' (PathString f) v \<and> (f, v) \<in> set entries
                      \<and> \<not> plain_object v)
                  \<or> (\<exists>f sf subs sv. e = WorkspaceSet w' (PathArray [f, sf]) sv
                      \<and> (f, JObj subs) \<in> set entries \<and> (sf, sv) \<in> set subs)"
    proof (cases q)
      case (PathString f)
      with e shape show ?thesis
        by (auto simp: string_set_in_entry_sets)
    next
      case (PathArray fs)
      with e shape show ?thesis
        by (auto simp: array_set_in_entry_sets)
    qed
    with w' show "\<exists>w' \<in> set (Yarn_workspaces Y). cwd w' \<noteq> ''.''
               \<and> ((\<exists>f v. e = WorkspaceSet w' (PathString f) v \<and> (f, v) \<in> set entries
                      \<and> \<not> plain_object v)
                  \<or> (\<exists>f sf subs sv. e = WorkspaceSet w' (PathArray [f, sf]) sv
                      \<and> (f, JObj subs) \<in> set entries \<and> (sf, sv) \<in> set subs))"
      by blast
  qed
qed

theorem enforceFieldsFromCustomPackage_sets_iff_not_identical_witness:
  "object_entries template_scalar
     = Inr [(''license'', JStr ''MIT''), (''publishConfig'', JObj [(''access'', JStr ''public'')])]
   \<and> snd (enforceFieldsFromCustomPackage snapshot_mixed template_scalar) = None
   \<and> ws_mobile \<in> set (Yarn_workspaces snapshot_mixed)
   \<and> cwd ws_mobile \<noteq> ''.''
   \<and> object_member (manifest ws_mobile) ''license'' = Data (JStr ''ISC'')
   \<and> WorkspaceSet ws_mobile (PathString ''license'') (JStr ''MIT'')
       \<in> set (fst (enforceFieldsFromCustomPackage snapshot_mixed template_scalar))
   \<and> optional_member (object_member (manifest ws_mobile) ''publishConfig'') ''access''
       = Inr NoData
   \<and> WorkspaceSet ws_mobile (PathArray [''publishConfig'', ''access'']) (JStr ''public'')
       \<in> set (fst (enforceFieldsFromCustomPackage snapshot_mixed template_scalar))
   \<and> ws_core \<in> set (Yarn_workspaces snapshot_mixed)
   \<and> cwd ws_core \<noteq> ''.''
   \<and> object_member (manifest ws_core) ''license'' = Data (JStr ''MIT'')
   \<and> WorkspaceSet ws_core (PathString ''license'') (JStr ''MIT'')
       \<notin> set (fst (enforceFieldsFromCustomPackage snapshot_mixed template_scalar))
   \<and> object_entries template_inherited
       = Inr [(''constructor'', JObj [(''name'', JStr ''Object'')])]
   \<and> snd (enforceFieldsFromCustomPackage snapshot_mixed template_inherited) = None
   \<and> optional_member (object_member (manifest ws_mobile) ''constructor'') ''name''
       = Inr (Data (JStr ''Object''))
   \<and> WorkspaceSet ws_mobile (PathArray [''constructor'', ''name'']) (JStr ''Object'')
       \<notin> set (fst (enforceFieldsFromCustomPackage snapshot_mixed template_inherited))"
proof -
  have h1: "object_entries template_scalar
     = Inr [(''license'', JStr ''MIT''), (''publishConfig'', JObj [(''access'', JStr ''public'')])]"
    by (simp add: template_scalar_def)
  have h2: "snd (enforceFieldsFromCustomPackage snapshot_mixed template_scalar) = None"
    by (simp add: run_mixed_scalar)
  have h3: "ws_mobile \<in> set (Yarn_workspaces snapshot_mixed)"
    and c3: "ws_core \<in> set (Yarn_workspaces snapshot_mixed)"
    by (simp_all add: Yarn_workspaces_def snapshot_mixed_def)
  have h4: "cwd ws_mobile \<noteq> ''.''" and c4: "cwd ws_core \<noteq> ''.''"
    by (simp_all add: ws_mobile_def ws_core_def)
  have cur: "object_member (manifest ws_mobile) ''license'' = Data (JStr ''ISC'')"
    by (simp add: ws_mobile_def object_member_def)
  have sub: "optional_member (object_member (manifest ws_mobile) ''publishConfig'') ''access''
       = Inr NoData"
    by (simp add: ws_mobile_def object_member_def object_prototype_member_def
        object_prototype_functions_def)
  have held: "object_member (manifest ws_core) ''license'' = Data (JStr ''MIT'')"
    by (simp add: ws_core_def object_member_def)
  have i1: "object_entries template_inherited
       = Inr [(''constructor'', JObj [(''name'', JStr ''Object'')])]"
    by (simp add: template_inherited_def)
  have i2: "snd (enforceFieldsFromCustomPackage snapshot_mixed template_inherited) = None"
    by (simp add: run_mixed_inherited)
  have inherited: "optional_member (object_member (manifest ws_mobile) ''constructor'') ''name''
       = Inr (Data (JStr ''Object''))"
    by (simp add: ws_mobile_def object_member_def object_prototype_member_def
        object_prototype_functions_def function_member_def)
  have staged: "WorkspaceSet ws_mobile (PathString ''license'') (JStr ''MIT'')
       \<in> set (fst (enforceFieldsFromCustomPackage snapshot_mixed template_scalar))"
    using enforceFieldsFromCustomPackage_sets_iff_not_identical
        [OF h1 h2 h3 h4, where field = "''license''" and wanted = "JStr ''MIT''"] cur
    by simp
  have kept: "WorkspaceSet ws_core (PathString ''license'') (JStr ''MIT'')
       \<notin> set (fst (enforceFieldsFromCustomPackage snapshot_mixed template_scalar))"
    using enforceFieldsFromCustomPackage_sets_iff_not_identical
        [OF h1 h2 c3 c4, where field = "''license''" and wanted = "JStr ''MIT''"] held
    by simp
  have nested: "WorkspaceSet ws_mobile (PathArray [''publishConfig'', ''access'']) (JStr ''public'')
       \<in> set (fst (enforceFieldsFromCustomPackage snapshot_mixed template_scalar))"
    using enforceFieldsFromCustomPackage_sets_iff_not_identical
        [OF h1 h2 h3 h4, where p = "[''publishConfig'', ''access'']"
           and subValue = "JStr ''public''"] sub
    by simp
  have same: "WorkspaceSet ws_mobile (PathArray [''constructor'', ''name'']) (JStr ''Object'')
       \<notin> set (fst (enforceFieldsFromCustomPackage snapshot_mixed template_inherited))"
    by (simp add: run_mixed_inherited)
  show ?thesis
    using h1 h2 h3 h4 c3 c4 cur sub held i1 i2 inherited staged kept nested same
    by blast
qed

section \<open>Exceptions and diagnostics of an evaluation\<close>




section \<open>Evaluating a corrected snapshot\<close>











section \<open>Properties of the consistency rule\<close>

lemma consistent_updates_step:
  "consistent_updates Y dependency (other # others) =
     (if kept_for Y dependency other then [DepUpdate dependency (dep_range other)] else [])
     @ consistent_updates Y dependency others"
  by (simp add: kept_for_def)

lemma staged_ranges_consistent_updates:
  "staged_ranges (consistent_updates Y dependency others) d =
     (if dependency = d then map dep_range (filter (kept_for Y d) others) else [])"
proof (induction others)
  case Nil
  then show ?case by simp
next
  case (Cons other others)
  then show ?case
    unfolding consistent_updates_step by (simp add: staged_ranges_append)
qed

lemma staged_ranges_consistent_absent:
  "d \<notin> set ds \<Longrightarrow> staged_ranges (consistent_dependencies Y ds) d = []"
  by (induction ds) (auto simp: staged_ranges_append staged_ranges_consistent_updates)

lemma staged_ranges_consistent_dependencies:
  "distinct ds \<Longrightarrow> d \<in> set ds \<Longrightarrow> \<not> ignored d \<Longrightarrow> dep_type d \<noteq> PeerDependencies \<Longrightarrow>
   staged_ranges (consistent_dependencies Y ds) d =
     map dep_range (filter (kept_for Y d) (Yarn_dependencies_ident Y (dep_ident d)))"
  by (induction ds)
     (auto simp: staged_ranges_append staged_ranges_consistent_updates
        staged_ranges_consistent_absent)

lemma run_react:
  "enforceConsistentDependenciesAcrossTheProject snapshot_react =
     [DepUpdate react18 ''18.2.0'', DepUpdate react18 ''17.0.2'',
      DepUpdate react17 ''18.2.0'', DepUpdate react17 ''17.0.2'']"
  by (simp add: enforceConsistentDependenciesAcrossTheProject_def Yarn_dependencies_def
      Yarn_dependencies_ident_def snapshot_react_def ignored_def
      IGNORE_CONSISTENT_DEPENDENCIES_FOR_def react18_def react17_def ws_mobile_def ws_core_def)

lemma react_differ: "react18 \<noteq> react17"
  by (simp add: react18_def react17_def)

lemma react_same_ident:
  "Yarn_dependencies_ident snapshot_react (dep_ident react17) = [react18, react17]"
  by (simp add: Yarn_dependencies_ident_def snapshot_react_def react18_def react17_def)

text \<open>
  C3, as stated, fails: two workspaces depend on react, with the ranges 18.2.0 and
  17.0.2. For the second dependency the first encountered one is the first, with 18.2.0;
  the rule stages two updates for it, to 18.2.0 and then to its own 17.0.2, so what is
  staged is not the one alignment to the first encountered range.
\<close>

theorem consistency_rule_stages_both_ranges:
  "Yarn_dependencies_ident snapshot_react (dep_ident react17) = [react18, react17]
   \<and> dep_range react18 = ''18.2.0''
   \<and> staged_ranges (enforceConsistentDependenciesAcrossTheProject snapshot_react) react17
       = [''18.2.0'', ''17.0.2'']
   \<and> staged_range (enforceConsistentDependenciesAcrossTheProject snapshot_react) react17
       = Some ''17.0.2''"
proof -
  have "staged_ranges (enforceConsistentDependenciesAcrossTheProject snapshot_react) react17
       = [''18.2.0'', ''17.0.2'']"
    using react_differ by (simp add: run_react)
  moreover have "dep_range react18 = ''18.2.0''"
    by (simp add: react18_def)
  ultimately show ?thesis
    using react_same_ident by (simp add: staged_range_def)
qed

text \<open>
  C3, amended. For every dependency that is not in an ignored workspace and not of peer
  type, the rule stages one update for each dependency that shares its identifier
  (itself among them) and is kept: not in an ignored workspace, not of peer type, and
  not a development dependency, on either side, on a package of the project. The
  updates carry the ranges of those dependencies in the order of the snapshot, so the
  first one staged is the first encountered range and the others follow it.
\<close>

theorem consistency_rule_stages_every_kept_range:
  assumes "distinct (Yarn_dependencies Y)"
    and "d \<in> set (Yarn_dependencies Y)"
    and "\<not> ignored d"
    and "dep_type d \<noteq> PeerDependencies"
  shows "staged_ranges (enforceConsistentDependenciesAcrossTheProject Y) d =
           map dep_range (filter (kept_for Y d) (Yarn_dependencies_ident Y (dep_ident d)))"
  using assms
  by (simp add: enforceConsistentDependenciesAcrossTheProject_def
      staged_ranges_consistent_dependencies)

theorem consistency_rule_stages_every_kept_range_witness:
  "distinct (Yarn_dependencies snapshot_react)
   \<and> react17 \<in> set (Yarn_dependencies snapshot_react)
   \<and> \<not> ignored react17
   \<and> dep_type react17 \<noteq> PeerDependencies
   \<and> staged_ranges (enforceConsistentDependenciesAcrossTheProject snapshot_react) react17
       = map dep_range (filter (kept_for snapshot_react react17)
           (Yarn_dependencies_ident snapshot_react (dep_ident react17)))
   \<and> map dep_range (filter (kept_for snapshot_react react17)
           (Yarn_dependencies_ident snapshot_react (dep_ident react17)))
       = [''18.2.0'', ''17.0.2'']"
proof -
  have h1: "distinct (Yarn_dependencies snapshot_react)"
    using react_differ by (simp add: Yarn_dependencies_def snapshot_react_def)
  have h2: "react17 \<in> set (Yarn_dependencies snapshot_react)"
    by (simp add: Yarn_dependencies_def snapshot_react_def)
  have h3: "\<not> ignored react17"
    by (simp add: ignored_def IGNORE_CONSISTENT_DEPENDENCIES_FOR_def react17_def ws_core_def)
  have h4: "dep_type react17 \<noteq> PeerDependencies"
    by (simp add: react17_def)
  have staged: "staged_ranges (enforceConsistentDependenciesAcrossTheProject snapshot_react) react17
       = [''18.2.0'', ''17.0.2'']"
    using react_differ by (simp add: run_react)
  show ?thesis
    using h1 h2 h3 h4 staged consistency_rule_stages_every_kept_range [OF h1 h2 h3 h4]
    by simp
qed

section \<open>Properties of the rules kept as commented-out code, and of their live siblings\<close>

lemma missing_field_message_inj [simp]:
  "missing_field_message a = missing_field_message b \<longleftrightarrow> a = b"
  by (simp add: missing_field_message_def)

lemma count_missing_field_errors:
  "distinct requiredFields \<Longrightarrow>
   count_list (missing_field_errors w requiredFields)
     (WorkspaceError w' (missing_field_message field)) =
     (if w' = w \<and> field \<in> set requiredFields \<and> field \<notin> fst ` set (manifest w)
      then 1 else 0)"
  by (induction requiredFields) auto

lemma count_validate_workspaces:
  "distinct requiredFields \<Longrightarrow> distinct ws \<Longrightarrow>
   count_list (validate_workspaces ws requiredFields)
     (WorkspaceError w (missing_field_message field)) =
     (if w \<in> set ws \<and> field \<in> set requiredFields \<and> field \<notin> fst ` set (manifest w)
      then 1 else 0)"
  by (induction ws) (auto simp: count_missing_field_errors)

text \<open>
  C6, as stated, fails: the workspace has no version, which is a required field, and
  neither evaluation emits a diagnostic. The rule that would report the field is
  commented out, and so is its call.
\<close>

theorem evaluation_reports_no_missing_field:
  "ws_mobile \<in> set (Yarn_workspaces snapshot_expo49)
   \<and> ''version'' \<in> set requiredWorkspacesFields
   \<and> ''version'' \<notin> fst ` set (manifest ws_mobile)
   \<and> diagnostics (constraints_part_000 snapshot_expo49) = []
   \<and> diagnostics (fst (constraints fs_scalar snapshot_expo49)) = []"
proof -
  have "ws_mobile \<in> set (Yarn_workspaces snapshot_expo49)"
    by (simp add: Yarn_workspaces_def snapshot_expo49_def)
  moreover have "''version'' \<in> set requiredWorkspacesFields"
    by (simp add: requiredWorkspacesFields_def)
  moreover have "''version'' \<notin> fst ` set (manifest ws_mobile)"
    by (simp add: ws_mobile_def)
  moreover have "diagnostics (constraints_part_000 snapshot_expo49) = []"
    by (simp add: constraints_part_000_def diagnostics_enforceDependencyRanges)
  ultimately show ?thesis
    using diagnostics_constraints [of fs_scalar snapshot_expo49] by blast
qed

text \<open>
  C6, amended. The field-presence rule, which the source keeps as commented-out code,
  emits for every workspace and every required field exactly one diagnostic naming the
  field when the manifest has no such key, and none when it has. The evaluations as
  they are configured do not run the rule and emit no diagnostic at all.
\<close>

theorem field_presence_rule_one_diagnostic_per_missing_field:
  assumes "distinct requiredFields"
    and "distinct (Yarn_workspaces Y)"
    and "w \<in> set (Yarn_workspaces Y)"
    and "field \<in> set requiredFields"
  shows "count_list (validatePresenceOfRequiredFields Y requiredFields)
           (WorkspaceError w (missing_field_message field))
         = (if field \<in> fst ` set (manifest w) then 0 else 1)
       \<and> diagnostics (constraints_part_000 Y) = []
       \<and> diagnostics (fst (constraints fs Y)) = []"
  using assms
  by (simp add: validatePresenceOfRequiredFields_def count_validate_workspaces
      constraints_part_000_def diagnostics_enforceDependencyRanges diagnostics_constraints)

theorem field_presence_rule_one_diagnostic_per_missing_field_witness:
  "distinct requiredWorkspacesFields
   \<and> distinct (Yarn_workspaces snapshot_expo49)
   \<and> ws_mobile \<in> set (Yarn_workspaces snapshot_expo49)
   \<and> ''version'' \<in> set requiredWorkspacesFields
   \<and> ''version'' \<notin> fst ` set (manifest ws_mobile)
   \<and> count_list (validatePresenceOfRequiredFields snapshot_expo49 requiredWorkspacesFields)
        (WorkspaceError ws_mobile (missing_field_message ''version'')) = 1
   \<and> ''name'' \<in> set requiredWorkspacesFields
   \<and> ''name'' \<in> fst ` set (manifest ws_mobile)
   \<and> count_list (validatePresenceOfRequiredFields snapshot_expo49 requiredWorkspacesFields)
        (WorkspaceError ws_mobile (missing_field_message ''name'')) = 0"
proof -
  have h1: "distinct requiredWorkspacesFields"
    by (simp add: requiredWorkspacesFields_def)
  have h2: "distinct (Yarn_workspaces snapshot_expo49)"
    by (simp add: Yarn_workspaces_def snapshot_expo49_def ws_root_def ws_mobile_def)
  have h3: "ws_mobile \<in> set (Yarn_workspaces snapshot_expo49)"
    by (simp add: Yarn_workspaces_def snapshot_expo49_def)
  have h4: "''version'' \<in> set requiredWorkspacesFields"
    and h5: "''name'' \<in> set requiredWorkspacesFields"
    by (simp_all add: requiredWorkspacesFields_def)
  have absent: "''version'' \<notin> fst ` set (manifest ws_mobile)"
    and present: "''name'' \<in> fst ` set (manifest ws_mobile)"
    by (simp_all add: ws_mobile_def)
  show ?thesis
    using h1 h2 h3 h4 h5 absent present
      field_presence_rule_one_diagnostic_per_missing_field
        [where fs = fs_scalar, OF h1 h2 h3 h4]
      field_presence_rule_one_diagnostic_per_missing_field
        [where fs = fs_scalar, OF h1 h2 h3 h5]
    by simp
qed

lemma only_updates_in_enforceDependencyRanges:
  "e \<in> set (enforceDependencyRanges Y m) \<Longrightarrow> \<exists>d r. e = DepUpdate d r"
  by (induction m) auto

lemma only_sets_in_constraints:
  "e \<in> set (fst (constraints fs Y)) \<Longrightarrow> \<exists>w p v. e = WorkspaceSet w p v"
proof (cases "loadCustomPackageFields fs ''./template-package.json''")
  case (Inl err)
  assume "e \<in> set (fst (constraints fs Y))"
  with Inl show ?thesis by (simp add: constraints_def)
next
  case (Inr tf)
  assume "e \<in> set (fst (constraints fs Y))"
  with Inr have "e \<in> set (fst (enforceFieldsFromCustomPackage Y tf))"
    by (simp add: constraints_def)
  then show ?thesis
    by (blast dest: enforceFields_sound only_sets_in_entry_sets)
qed

lemma set_forbidDependencies:
  "set (forbidDependencies Y forbidden) =
     {DepDelete d | d. d \<in> set (Yarn_dependencies Y) \<and> dep_ident d \<in> set forbidden}"
  by (induction forbidden) (auto simp: Yarn_dependencies_ident_def Yarn_dependencies_def)

lemma set_forbidDependency:
  "set (forbidDependency Y i explanation) =
     {DepError d explanation | d. d \<in> set (Yarn_dependencies Y) \<and> dep_ident d = i}"
  by (auto simp: forbidDependency_def Yarn_dependencies_ident_def Yarn_dependencies_def)

text \<open>
  C7, as stated, fails on the rule that yarn.config.cjs defines: for a dependency with
  the forbidden identifier it stages an error with the explanation, and no deletion.
\<close>

theorem forbidDependency_reports_and_keeps:
  "dep_ident expo49 = ''expo''
   \<and> forbidDependency snapshot_expo49 ''expo'' ''Do not depend on expo''
       = [DepError expo49 ''Do not depend on expo'']
   \<and> DepDelete expo49 \<notin> set (forbidDependency snapshot_expo49 ''expo'' ''Do not depend on expo'')"
proof -
  have run: "forbidDependency snapshot_expo49 ''expo'' ''Do not depend on expo''
       = [DepError expo49 ''Do not depend on expo'']"
    by (simp add: forbidDependency_def Yarn_dependencies_ident_def snapshot_expo49_def
        expo49_def)
  show ?thesis
    unfolding run by (simp add: expo49_def)
qed

text \<open>
  C7, amended. The rule kept as commented-out code, \<^verbatim>\<open>forbidDependencies\<close>, stages a
  deletion of every dependency whose identifier is in the forbidden list and stages
  nothing else. The rule that is defined, \<^verbatim>\<open>forbidDependency\<close>, attaches the explanation
  as an error to every dependency with the given identifier and stages nothing else.
  Neither touches a dependency with another identifier, and neither is called by a
  configured evaluation: no evaluation stages a deletion or an error of a dependency,
  whatever the snapshot holds.
\<close>

theorem forbidden_rules_touch_matching_dependencies_only:
  "set (forbidDependencies Y forbidden) =
     {DepDelete d | d. d \<in> set (Yarn_dependencies Y) \<and> dep_ident d \<in> set forbidden}
   \<and> set (forbidDependency Y i explanation) =
     {DepError d explanation | d. d \<in> set (Yarn_dependencies Y) \<and> dep_ident d = i}
   \<and> DepDelete d \<notin> set (constraints_part_000 Y)
   \<and> DepError d message \<notin> set (constraints_part_000 Y)
   \<and> DepDelete d \<notin> set (fst (constraints fs Y))
   \<and> DepError d message \<notin> set (fst (constraints fs Y))"
proof (intro conjI)
  show "set (forbidDependencies Y forbidden) =
     {DepDelete d | d. d \<in> set (Yarn_dependencies Y) \<and> dep_ident d \<in> set forbidden}"
    by (rule set_forbidDependencies)
  show "set (forbidDependency Y i explanation) =
     {DepError d explanation | d. d \<in> set (Yarn_dependencies Y) \<and> dep_ident d = i}"
    by (rule set_forbidDependency)
  show "DepDelete d \<notin> set (constraints_part_000 Y)"
    and "DepError d message \<notin> set (constraints_part_000 Y)"
    using only_updates_in_enforceDependencyRanges [of _ Y allowedRanges]
    by (auto simp: constraints_part_000_def)
  show "DepDelete d \<notin> set (fst (constraints fs Y))"
    and "DepError d message \<notin> set (fst (constraints fs Y))"
    using only_sets_in_constraints [of _ fs Y] by auto
qed

end
